theory Spec2Isabelle
  imports Main "HOL-Library.Word"
begin

section \<open>Signatures and table entries\<close>

text \<open>
  The library \<^verbatim>\<open>polymorphic.hpp\<close> is a template library: signature lists and concrete
  types are template arguments.  In the embedding they are ordinary arguments, and what
  the compiler rejects (a failed \<^verbatim>\<open>static_assert\<close>, an overload that is not found or is
  ambiguous, a conversion that does not exist, a private member named from another class)
  is an error value.  What the C++ standard leaves undefined (a call through a
  null or dangling address, an index outside an array) is an error value too.
\<close>

datatype error =
    StaticAssertFailed
  | NoMatchingFunction
  | AmbiguousCall
  | InvalidConversion
  | InaccessibleMember
  | UndefinedBehavior

text \<open>\<^verbatim>\<open>using index_type = std::uint8_t;\<close>\<close>

type_synonym index_type = "8 word"

text \<open>A concrete type \<^verbatim>\<open>T\<close> is known by its name; types in a signature likewise.\<close>

type_synonym type_id = string

text \<open>
  A method tag is an empty struct.  The library declares one itself, \<^verbatim>\<open>detail::clone\<close>;
  all others are the consumer's.
\<close>

datatype method_tag = clone | tag string

text \<open>
  A signature \<^verbatim>\<open>Return(Method, Parameters...)\<close> or \<^verbatim>\<open>Return(Method, Parameters...) const\<close>.
\<close>

datatype signature =
  Signature (return: type_id) (meth: method_tag) (parameters: "type_id list") (is_const: bool)

text \<open>
  \<^verbatim>\<open>using copyable = std::unique_ptr<detail::holder>(detail::clone) const;\<close>
\<close>

definition copyable :: signature where
  "copyable = Signature ''std::unique_ptr<detail::holder>'' clone [] True"

text \<open>
  \<^verbatim>\<open>vtable_entry<I, Signature>::get_entry(type<T>)\<close> returns the address of a captureless
  lambda.  There is one such function per entry and concrete type; what it does when it
  is invoked is \<open>invoke\<close> below.
\<close>

datatype vtable_fun = Stub nat signature type_id

definition get_entry :: "nat \<Rightarrow> signature \<Rightarrow> type_id \<Rightarrow> vtable_fun" where
  "get_entry I s T = Stub I s T"

text \<open>
  \<^verbatim>\<open>entries\<close> inherits one \<^verbatim>\<open>get_index(type<Signature>)\<close> from each entry, and the
  entry \<^verbatim>\<open>vtable_entry<I, Signature>\<close> returns \<^verbatim>\<open>I\<close>.  The argument type
  \<^verbatim>\<open>type<Signature>\<close> admits no conversion, so overload resolution finds the entries
  with exactly that signature: none is an error, two or more are ambiguous.
\<close>

definition get_index :: "signature list \<Rightarrow> signature \<Rightarrow> error + nat" where
  "get_index sigs s =
     (case filter (\<lambda>I. sigs ! I = s) [0..<length sigs] of
        [] \<Rightarrow> Inl NoMatchingFunction
      | [I] \<Rightarrow> Inr I
      | _ \<Rightarrow> Inl AmbiguousCall)"

text \<open>\<^verbatim>\<open>entries::all_const()\<close>: the conjunction of \<^verbatim>\<open>is_const\<close> over the entries.\<close>

definition all_const :: "signature list \<Rightarrow> bool" where
  "all_const sigs = list_all is_const sigs"

section \<open>Tables\<close>

text \<open>
  \<^verbatim>\<open>get_vtable(type<T>)\<close> returns the address of a function-local static array, one
  array per instantiation, that is per signature list and concrete type.  A pointer to
  it is modelled by the pair that names the instantiation, and the static memory by the
  function \<open>static_vt\<close> that gives the array behind such a pointer.
\<close>

datatype vtable_ptr = Static_vt "signature list" type_id

definition get_vtable :: "signature list \<Rightarrow> type_id \<Rightarrow> vtable_ptr" where
  "get_vtable sigs T = Static_vt sigs T"

fun static_vt :: "vtable_ptr \<Rightarrow> vtable_fun list" where
  "static_vt (Static_vt sigs T) = map (\<lambda>I. get_entry I (sigs ! I) T) [0..<length sigs]"

text \<open>
  The members of \<^verbatim>\<open>vtable_imp\<close>: \<^verbatim>\<open>vptr_\<close> and \<^verbatim>\<open>permutation_\<close> (a
  \<^verbatim>\<open>std::array\<close> of \<^verbatim>\<open>index_type\<close> with one element per signature).
\<close>

record vtable_imp =
  vptr :: vtable_ptr
  permutation :: "index_type list"

text \<open>
  The class asserts \<^verbatim>\<open>sizeof...(Signatures) <= std::numeric_limits<index_type>::max()\<close>.
\<close>

definition index_type_max :: nat where
  "index_type_max = unat (- 1 :: index_type)"

definition static_assert :: "signature list \<Rightarrow> bool" where
  "static_assert sigs = (length sigs \<le> index_type_max)"

text \<open>
  \<^verbatim>\<open>vtable_imp(type<T> t) : vptr_(get_vtable(t)), permutation_{I...}\<close>, where \<^verbatim>\<open>I...\<close>
  is \<^verbatim>\<open>std::make_index_sequence<sizeof...(Signatures)>\<close>, each index stored as an
  \<^verbatim>\<open>index_type\<close>.
\<close>

definition vtable_from_type :: "signature list \<Rightarrow> type_id \<Rightarrow> error + vtable_imp" where
  "vtable_from_type sigs T =
     (if static_assert sigs
      then Inr \<lparr>vptr = get_vtable sigs T,
               permutation = map of_nat [0..<length sigs]\<rparr>
      else Inl StaticAssertFailed)"

text \<open>
  The pack expansion
  \<^verbatim>\<open>permutation_{other.permutation_[other.get_index(type<Signatures>{})]...}\<close>
  of the converting constructor, one element per signature of the new table.
\<close>

fun rebuild :: "signature list \<Rightarrow> index_type list \<Rightarrow> signature list \<Rightarrow> error + index_type list" where
  "rebuild other_sigs other_permutation [] = Inr []"
| "rebuild other_sigs other_permutation (s # sigs) =
     (case get_index other_sigs s of
        Inl e \<Rightarrow> Inl e
      | Inr I \<Rightarrow>
          (case rebuild other_sigs other_permutation sigs of
             Inl e \<Rightarrow> Inl e
           | Inr p \<Rightarrow> Inr (other_permutation ! I # p)))"

text \<open>
  \<^verbatim>\<open>vtable_imp(const vtable_imp<OtherSequence, OtherSignatures...> &other)\<close>.  A
  constructor template is never the copy constructor: from a table of the same type the
  implicit copy constructor is chosen, which copies both members.
\<close>

definition vtable_convert :: "signature list \<Rightarrow> signature list \<Rightarrow> vtable_imp \<Rightarrow> error + vtable_imp" where
  "vtable_convert sigs other_sigs other =
     (if \<not> static_assert sigs then Inl StaticAssertFailed
      else if sigs = other_sigs then Inr other
      else (case rebuild other_sigs (permutation other) sigs of
              Inl e \<Rightarrow> Inl e
            | Inr p \<Rightarrow> Inr \<lparr>vptr = vptr other, permutation = p\<rparr>))"

text \<open>
  \<^verbatim>\<open>vtable_entry<I, Signature>::call_imp\<close> reads \<^verbatim>\<open>vt[permutation[I]]\<close>; both are raw
  pointers, and a read outside either array is undefined.
\<close>

definition call_imp :: "nat \<Rightarrow> vtable_fun list \<Rightarrow> index_type list \<Rightarrow> error + vtable_fun" where
  "call_imp I vt perm =
     (if I < length perm \<and> unat (perm ! I) < length vt
      then Inr (vt ! unat (perm ! I))
      else Inl UndefinedBehavior)"

text \<open>
  \<^verbatim>\<open>vtable_imp::call\<close> passes \<^verbatim>\<open>vptr_\<close> and \<^verbatim>\<open>permutation_.data()\<close> to the
  \<^verbatim>\<open>call_imp\<close> that overload resolution selects among the entries.  The selection is
  made at compile time; the model is given the signature of the entry to call and finds
  its position in the declared list.
\<close>

definition vtable_call :: "signature list \<Rightarrow> vtable_imp \<Rightarrow> signature \<Rightarrow> error + vtable_fun" where
  "vtable_call sigs v s =
     (case get_index sigs s of
        Inl e \<Rightarrow> Inl e
      | Inr I \<Rightarrow> call_imp I (static_vt (vptr v)) (permutation v))"

section \<open>Memory\<close>

text \<open>
  Objects of concrete types live at addresses; an erased address (\<^verbatim>\<open>void *\<close> or
  \<^verbatim>\<open>const void *\<close>) is an address or null.  An object is stored with its type, since a
  stub casts the erased address back to the type it was generated for, and the cast is
  undefined when the object there has another type.

  \<^verbatim>\<open>struct holder { void *ptr; ~holder() {} };\<close> and
  \<^verbatim>\<open>holder_imp<T> : holder { T t_; holder_imp(T t) : t_(std::move(t)) { ptr = &t_; } }\<close>:
  a holder is stored as its \<^verbatim>\<open>ptr\<close> member, the address of the object \<^verbatim>\<open>t_\<close> it
  contains.

  A \<^verbatim>\<open>std::shared_ptr\<close> has a control block with the number of owners and the way the
  holder is destroyed when the last owner goes: \<^verbatim>\<open>std::make_shared<holder_imp<T>>\<close>
  destroys the \<^verbatim>\<open>holder_imp<T>\<close> it created; a shared pointer made from a
  \<^verbatim>\<open>std::unique_ptr<holder>\<close> deletes through \<^verbatim>\<open>holder *\<close>.

  The counters \<open>destructor_runs\<close> (runs of the destructor of the object at an address)
  and \<open>released\<close> (deallocations of the holder at an address) record what a test double
  would count.
\<close>

type_synonym addr = nat

datatype deleter = Destroy_holder_imp | Delete_holder

record control_block =
  use_count :: nat
  deleter :: deleter

record 'v memory =
  objects :: "addr \<rightharpoonup> type_id \<times> 'v"
  holders :: "addr \<rightharpoonup> addr"
  controls :: "addr \<rightharpoonup> control_block"
  next_addr :: addr
  destructor_runs :: "addr \<Rightarrow> nat"
  released :: "addr \<Rightarrow> nat"

text \<open>
  \<^verbatim>\<open>new holder_imp<T>(t)\<close>, as \<^verbatim>\<open>std::make_unique\<close> and \<^verbatim>\<open>std::make_shared\<close> do it:
  fresh storage for the holder, the value copied or moved into its member \<^verbatim>\<open>t_\<close>.
\<close>

definition new_holder_imp :: "type_id \<Rightarrow> 'v \<Rightarrow> 'v memory \<Rightarrow> addr \<times> 'v memory" where
  "new_holder_imp T v m =
     (let h = next_addr m; p = Suc h
      in (h, m\<lparr>objects := (objects m)(p \<mapsto> (T, v)),
               holders := (holders m)(h \<mapsto> p),
               next_addr := Suc p\<rparr>))"

text \<open>
  \<^verbatim>\<open>delete p\<close> for \<^verbatim>\<open>holder *p\<close>.  The destructor of \<^verbatim>\<open>holder\<close> is not virtual, so the
  delete-expression calls \<^verbatim>\<open>holder::~holder()\<close>, whose body is empty, and frees the
  storage; the destructor of \<^verbatim>\<open>holder_imp<T>\<close>, which would destroy \<^verbatim>\<open>t_\<close>, is not
  called.  (The standard leaves a delete through a base class without a virtual
  destructor undefined; this is what the call the code is compiled to does.)
\<close>

definition delete_holder :: "addr \<Rightarrow> 'v memory \<Rightarrow> error + 'v memory" where
  "delete_holder h m =
     (case holders m h of
        None \<Rightarrow> Inl UndefinedBehavior
      | Some p \<Rightarrow>
          Inr (m\<lparr>objects := (objects m)(p := None),
                 holders := (holders m)(h := None),
                 released := (released m)(h := Suc (released m h))\<rparr>))"

text \<open>
  The destruction of a \<^verbatim>\<open>holder_imp<T>\<close> under its own type, as the control block of
  \<^verbatim>\<open>std::make_shared<holder_imp<T>>\<close> does it: the member \<^verbatim>\<open>t_\<close> is destroyed, then
  the storage is freed.
\<close>

definition destroy_holder_imp :: "addr \<Rightarrow> 'v memory \<Rightarrow> error + 'v memory" where
  "destroy_holder_imp h m =
     (case holders m h of
        None \<Rightarrow> Inl UndefinedBehavior
      | Some p \<Rightarrow>
          Inr (m\<lparr>objects := (objects m)(p := None),
                 holders := (holders m)(h := None),
                 destructor_runs := (destructor_runs m)(p := Suc (destructor_runs m p)),
                 released := (released m)(h := Suc (released m h))\<rparr>))"

section \<open>Stubs\<close>

text \<open>
  The consumer's free functions \<^verbatim>\<open>poly_extend(Method *, T &, Parameters...)\<close> and
  \<^verbatim>\<open>poly_extend(Method *, const T &, Parameters...)\<close>, one per signature and concrete
  type: from the value of the object and the arguments to the result and the value the
  object has afterwards.
\<close>

type_synonym ('v, 'a, 'r) poly_extend = "signature \<Rightarrow> type_id \<Rightarrow> 'v \<Rightarrow> 'a list \<Rightarrow> 'r \<times> 'v"

text \<open>
  What a call returns: a value of the consumer's, or the \<^verbatim>\<open>std::unique_ptr<holder>\<close>
  of the library's own \<^verbatim>\<open>poly_extend(clone *, const T &)\<close>.
\<close>

datatype 'r result = Value 'r | Unique_ptr "addr option"

text \<open>
  The free function called directly on an object \<^verbatim>\<open>t\<close> of type \<^verbatim>\<open>T\<close> at address \<open>a\<close>.
  For the tag \<^verbatim>\<open>clone\<close> without parameters it is the library's
  \<^verbatim>\<open>return std::make_unique<holder_imp<T>>(t);\<close>.  A function that takes
  \<^verbatim>\<open>const T &\<close> leaves the object as it is.
\<close>

definition poly_extend_at ::
  "('v, 'a, 'r) poly_extend \<Rightarrow> signature \<Rightarrow> type_id \<Rightarrow> addr \<Rightarrow> 'a list \<Rightarrow> 'v memory
     \<Rightarrow> error + ('r result \<times> 'v memory)" where
  "poly_extend_at pe s T a args m =
     (case objects m a of
        None \<Rightarrow> Inl UndefinedBehavior
      | Some (U, v) \<Rightarrow>
          if U \<noteq> T then Inl UndefinedBehavior
          else if meth s = clone \<and> parameters s = [] then
            (case new_holder_imp T v m of (h, m') \<Rightarrow> Inr (Unique_ptr (Some h), m'))
          else
            (case pe s T v args of
               (r, v') \<Rightarrow>
                 Inr (Value r,
                      if is_const s then m else m\<lparr>objects := (objects m)(a \<mapsto> (T, v'))\<rparr>)))"

text \<open>
  \<^verbatim>\<open>call_imp\<close> and the lambda of \<^verbatim>\<open>get_entry\<close> take \<^verbatim>\<open>Parameters... parameters\<close> by
  value, and the lambda returns \<^verbatim>\<open>Return\<close>: what the caller passes is converted to the
  parameter types the signature declares, and what the free function returns is
  converted to the return type the signature declares.  The implicit conversions are the
  language's and the consumer's types'; the model takes them as a parameter, one
  conversion to each type for arguments and one for results.
\<close>

record ('a, 'r) conversions =
  to_parameter :: "type_id \<Rightarrow> 'a \<Rightarrow> 'a"
  to_return :: "type_id \<Rightarrow> 'r \<Rightarrow> 'r"

text \<open>
  The arguments of a call as \<^verbatim>\<open>call_imp\<close> of the entry for the signature \<open>s\<close> receives
  them.  The overload is viable only for as many arguments as \<open>s\<close> has parameters.
\<close>

definition pass_parameters :: "('a, 'r) conversions \<Rightarrow> signature \<Rightarrow> 'a list \<Rightarrow> error + 'a list" where
  "pass_parameters cv s args =
     (if length args = length (parameters s)
      then Inr (map2 (to_parameter cv) (parameters s) args)
      else Inl NoMatchingFunction)"

text \<open>
  The result of the free function as the lambda returns it.  The
  \<^verbatim>\<open>std::unique_ptr<holder>\<close> of \<^verbatim>\<open>clone\<close> is returned as it is.
\<close>

fun return_result :: "('a, 'r) conversions \<Rightarrow> signature \<Rightarrow> 'r result \<Rightarrow> 'r result" where
  "return_result cv s (Value r) = Value (to_return cv (return s) r)"
| "return_result cv s (Unique_ptr h) = Unique_ptr h"

fun returning ::
  "('a, 'r) conversions \<Rightarrow> signature \<Rightarrow> error + ('r result \<times> 'v memory)
     \<Rightarrow> error + ('r result \<times> 'v memory)" where
  "returning cv s (Inl e) = Inl e"
| "returning cv s (Inr (r, m)) = Inr (return_result cv s r, m)"

text \<open>
  The lambda of \<^verbatim>\<open>get_entry\<close>, called by \<^verbatim>\<open>call_imp\<close> on an erased address:
  \<^verbatim>\<open>[](void *t, Parameters... parameters) -> Return { return poly_extend(static_cast<Method *>(nullptr), *static_cast<T *>(t), parameters...); }\<close>
\<close>

definition invoke ::
  "('a, 'r) conversions \<Rightarrow> ('v, 'a, 'r) poly_extend \<Rightarrow> vtable_fun \<Rightarrow> addr option \<Rightarrow> 'a list
     \<Rightarrow> 'v memory \<Rightarrow> error + ('r result \<times> 'v memory)" where
  "invoke cv pe f t args m =
     (case f of Stub I s T \<Rightarrow>
        (case pass_parameters cv s args of
           Inl e \<Rightarrow> Inl e
         | Inr ps \<Rightarrow>
             (case t of
                None \<Rightarrow> Inl UndefinedBehavior
              | Some a \<Rightarrow> returning cv s (poly_extend_at pe s T a ps m))))"

section \<open>The handle \<^verbatim>\<open>ref\<close>\<close>

record ref =
  ref_vt :: vtable_imp
  ref_t :: "addr option"

text \<open>\<^verbatim>\<open>ref(T &t) : vt_(detail::type<std::decay_t<T>>{}), t_(&t)\<close>\<close>

definition ref_from_value :: "signature list \<Rightarrow> type_id \<Rightarrow> addr \<Rightarrow> error + ref" where
  "ref_from_value sigs T a =
     (case vtable_from_type sigs T of
        Inl e \<Rightarrow> Inl e
      | Inr v \<Rightarrow> Inr \<lparr>ref_vt = v, ref_t = Some a\<rparr>)"


definition ref_bool :: "ref \<Rightarrow> bool" where
  "ref_bool r = (ref_t r \<noteq> None)"


text \<open>
  \<^verbatim>\<open>ref::call<Method>(parameters...)\<close>:
  \<^verbatim>\<open>return vt_.call(static_cast<Method *>(nullptr), t_, parameters...);\<close>
\<close>

definition ref_call ::
  "('a, 'r) conversions \<Rightarrow> ('v, 'a, 'r) poly_extend \<Rightarrow> signature list \<Rightarrow> ref \<Rightarrow> signature \<Rightarrow> 'a list \<Rightarrow> 'v memory
     \<Rightarrow> error + ('r result \<times> 'v memory)" where
  "ref_call cv pe sigs r s args m =
     (case vtable_call sigs (ref_vt r) s of
        Inl e \<Rightarrow> Inl e
      | Inr f \<Rightarrow> invoke cv pe f (ref_t r) args m)"


section \<open>The owning handle, mutable shape\<close>

text \<open>
  The primary template \<^verbatim>\<open>object_imp<all_const, Signatures...>\<close> holds \<^verbatim>\<open>vt_\<close> and a
  \<^verbatim>\<open>std::unique_ptr<holder> t_\<close>, the address of its holder or null.  The
  specialization for \<^verbatim>\<open>all_const = true\<close> has the same two members with a
  \<^verbatim>\<open>std::shared_ptr<const holder>\<close>.
\<close>

record object_imp =
  obj_vt :: vtable_imp
  obj_t :: "addr option"

text \<open>
  The alias \<^verbatim>\<open>object<Signatures...>\<close> is
  \<^verbatim>\<open>object_imp<vtable<Signatures...>::all_const(), Signatures..., copyable>\<close>.
\<close>

definition object_signatures :: "signature list \<Rightarrow> signature list" where
  "object_signatures sigs = sigs @ [copyable]"

definition object_bool :: "object_imp \<Rightarrow> bool" where
  "object_bool x = (obj_t x \<noteq> None)"

text \<open>
  \<^verbatim>\<open>get_ptr() { return t_ ? t_->ptr : nullptr; }\<close>, in both shapes.  Reading \<^verbatim>\<open>ptr\<close>
  from a holder that is gone is undefined.
\<close>

definition object_get_ptr :: "object_imp \<Rightarrow> 'v memory \<Rightarrow> error + addr option" where
  "object_get_ptr x m =
     (case obj_t x of
        None \<Rightarrow> Inr None
      | Some h \<Rightarrow>
          (case holders m h of
             None \<Rightarrow> Inl UndefinedBehavior
           | Some p \<Rightarrow> Inr (Some p)))"

text \<open>
  \<^verbatim>\<open>call<Method>(parameters...)\<close>, in both shapes:
  \<^verbatim>\<open>return vt_.call(static_cast<Method *>(nullptr), get_ptr(), parameters...);\<close>
\<close>

definition object_call ::
  "('a, 'r) conversions \<Rightarrow> ('v, 'a, 'r) poly_extend \<Rightarrow> signature list \<Rightarrow> object_imp \<Rightarrow> signature \<Rightarrow> 'a list
     \<Rightarrow> 'v memory \<Rightarrow> error + ('r result \<times> 'v memory)" where
  "object_call cv pe sigs x s args m =
     (case vtable_call sigs (obj_vt x) s of
        Inl e \<Rightarrow> Inl e
      | Inr f \<Rightarrow>
          (case object_get_ptr x m of
             Inl e \<Rightarrow> Inl e
           | Inr t \<Rightarrow> invoke cv pe f t args m))"

text \<open>
  \<^verbatim>\<open>object_imp(T t) : vt_(detail::type<T>{}), t_(std::make_unique<detail::holder_imp<T>>(std::move(t)))\<close>
\<close>

definition object_from_value ::
  "signature list \<Rightarrow> type_id \<Rightarrow> 'v \<Rightarrow> 'v memory \<Rightarrow> error + (object_imp \<times> 'v memory)" where
  "object_from_value sigs T v m =
     (case vtable_from_type sigs T of
        Inl e \<Rightarrow> Inl e
      | Inr vt \<Rightarrow>
          (case new_holder_imp T v m of
             (h, m') \<Rightarrow> Inr (\<lparr>obj_vt = vt, obj_t = Some h\<rparr>, m')))"

text \<open>
  What both cloning constructors do with the result of
  \<^verbatim>\<open>other ? other.call<detail::clone>() : nullptr\<close>: the returned
  \<^verbatim>\<open>std::unique_ptr<holder>\<close> initializes \<^verbatim>\<open>t_\<close>.
\<close>

fun adopt ::
  "vtable_imp \<Rightarrow> error + ('r result \<times> 'v memory) \<Rightarrow> error + (object_imp \<times> 'v memory)" where
  "adopt vt (Inl e) = Inl e"
| "adopt vt (Inr (Unique_ptr h, m)) = Inr (\<lparr>obj_vt = vt, obj_t = h\<rparr>, m)"
| "adopt vt (Inr (Value r, m)) = Inl InvalidConversion"

text \<open>
  \<^verbatim>\<open>object_imp(const object_imp &other) : vt_{other.get_vtable()}, t_(other ? other.call<detail::clone>() : nullptr)\<close>
\<close>

definition object_copy ::
  "('a, 'r) conversions \<Rightarrow> ('v, 'a, 'r) poly_extend \<Rightarrow> signature list \<Rightarrow> object_imp \<Rightarrow> 'v memory
     \<Rightarrow> error + (object_imp \<times> 'v memory)" where
  "object_copy cv pe sigs other m =
     (if object_bool other
      then adopt (obj_vt other) (object_call cv pe sigs other copyable [] m)
      else Inr (\<lparr>obj_vt = obj_vt other, obj_t = None\<rparr>, m))"

text \<open>
  \<^verbatim>\<open>object_imp(object_imp &&) = default;\<close> moves the \<^verbatim>\<open>std::unique_ptr\<close> and leaves the
  source empty.  The result is the new handle and the source as it is afterwards.
\<close>

definition object_move :: "object_imp \<Rightarrow> object_imp \<times> object_imp" where
  "object_move other = (\<lparr>obj_vt = obj_vt other, obj_t = obj_t other\<rparr>, other\<lparr>obj_t := None\<rparr>)"

text \<open>
  The implicit destructor destroys \<^verbatim>\<open>t_\<close>; a non-null \<^verbatim>\<open>std::unique_ptr<holder>\<close>
  deletes its \<^verbatim>\<open>holder *\<close>.
\<close>

definition object_destroy :: "object_imp \<Rightarrow> 'v memory \<Rightarrow> error + 'v memory" where
  "object_destroy x m =
     (case obj_t x of
        None \<Rightarrow> Inr m
      | Some h \<Rightarrow> delete_holder h m)"

text \<open>
  \<^verbatim>\<open>ref(const Poly &other)\<close> for an owning handle.  The handle is taken by
  const reference, its \<^verbatim>\<open>get_ptr() const\<close> returns \<^verbatim>\<open>const void *\<close>, so the signatures
  of the \<^verbatim>\<open>ref\<close> must all be const.
\<close>

definition ref_from_object ::
  "signature list \<Rightarrow> signature list \<Rightarrow> object_imp \<Rightarrow> 'v memory \<Rightarrow> error + ref" where
  "ref_from_object sigs other_sigs other m =
     (if \<not> all_const sigs then Inl InvalidConversion
      else (case vtable_convert sigs other_sigs (obj_vt other) of
              Inl e \<Rightarrow> Inl e
            | Inr v \<Rightarrow>
                (case object_get_ptr other m of
                   Inl e \<Rightarrow> Inl e
                 | Inr t \<Rightarrow> Inr \<lparr>ref_vt = v, ref_t = t\<rparr>)))"

text \<open>
  \<^verbatim>\<open>object_imp(const Poly &other) : vt_(other.get_vtable()), t_(other ? other.template call<detail::clone>() : nullptr)\<close>
  for \<^verbatim>\<open>Poly = ref<OtherSignatures...>\<close>.
\<close>

definition object_from_ref ::
  "('a, 'r) conversions \<Rightarrow> ('v, 'a, 'r) poly_extend \<Rightarrow> signature list \<Rightarrow> signature list \<Rightarrow> ref \<Rightarrow> 'v memory
     \<Rightarrow> error + (object_imp \<times> 'v memory)" where
  "object_from_ref cv pe sigs other_sigs other m =
     (case vtable_convert sigs other_sigs (ref_vt other) of
        Inl e \<Rightarrow> Inl e
      | Inr vt \<Rightarrow>
          if ref_bool other
          then adopt vt (ref_call cv pe other_sigs other copyable [] m)
          else Inr (\<lparr>obj_vt = vt, obj_t = None\<rparr>, m))"


text \<open>
  \<^verbatim>\<open>object_imp &operator=(const object_imp &other) { (*this) = ref(other); }\<close>

  \<^item> \<^verbatim>\<open>ref(other)\<close> names the class template without arguments.  None of its
    constructors mentions \<^verbatim>\<open>Signatures...\<close>, so the pack is deduced empty and the
    temporary is a \<^verbatim>\<open>ref<>\<close>.
  \<^item> The assignment needs an \<^verbatim>\<open>object_imp\<close> on its right: the \<^verbatim>\<open>ref<>\<close> is
    converted by the constructor \<^verbatim>\<open>object_imp(const Poly &)\<close>.
  \<^item> The member \<^verbatim>\<open>vt_\<close> is const, so the defaulted move assignment is deleted and
    overload resolution ignores it: assigning the converted temporary calls this same
    operator again.  The recursion is bounded by fuel, and \<open>None\<close> is its running out.
  \<^item> The body has no \<^verbatim>\<open>return\<close>: control that reaches its end is undefined.
\<close>

fun object_copy_assign ::
  "nat \<Rightarrow> ('a, 'r) conversions \<Rightarrow> ('v, 'a, 'r) poly_extend \<Rightarrow> signature list \<Rightarrow> object_imp \<Rightarrow> object_imp \<Rightarrow> 'v memory
     \<Rightarrow> (error + (object_imp \<times> 'v memory)) option" where
  "object_copy_assign 0 cv pe sigs this other m = None"
| "object_copy_assign (Suc fuel) cv pe sigs this other m =
     (case ref_from_object [] sigs other m of
        Inl e \<Rightarrow> Some (Inl e)
      | Inr r \<Rightarrow>
          (case object_from_ref cv pe sigs [] r m of
             Inl e \<Rightarrow> Some (Inl e)
           | Inr (tmp, m') \<Rightarrow>
               (case object_copy_assign fuel cv pe sigs this tmp m' of
                  None \<Rightarrow> None
                | Some (Inl e) \<Rightarrow> Some (Inl e)
                | Some (Inr (this', m'')) \<Rightarrow> Some (Inl UndefinedBehavior))))"

section \<open>The owning handle, shared shape\<close>

text \<open>
  \<^verbatim>\<open>object_imp(T t) : vt_(detail::type<T>{}), t_(std::make_shared<holder_imp<T>>(std::move(t)))\<close>
\<close>

definition shared_from_value ::
  "signature list \<Rightarrow> type_id \<Rightarrow> 'v \<Rightarrow> 'v memory \<Rightarrow> error + (object_imp \<times> 'v memory)" where
  "shared_from_value sigs T v m =
     (case vtable_from_type sigs T of
        Inl e \<Rightarrow> Inl e
      | Inr vt \<Rightarrow>
          (case new_holder_imp T v m of
             (h, m') \<Rightarrow>
               Inr (\<lparr>obj_vt = vt, obj_t = Some h\<rparr>,
                    m'\<lparr>controls := (controls m')(h \<mapsto> \<lparr>use_count = 1, deleter = Destroy_holder_imp\<rparr>)\<rparr>)))"

text \<open>
  Copying a \<^verbatim>\<open>std::shared_ptr\<close>: the copy holds the same address, and a non-null one
  counts one more owner.
\<close>

definition shared_ptr_copy :: "addr option \<Rightarrow> 'v memory \<Rightarrow> addr option \<times> 'v memory" where
  "shared_ptr_copy t m =
     (case t of
        None \<Rightarrow> (None, m)
      | Some h \<Rightarrow>
          (case controls m h of
             None \<Rightarrow> (Some h, m)
           | Some c \<Rightarrow>
               (Some h, m\<lparr>controls := (controls m)(h \<mapsto> c\<lparr>use_count := Suc (use_count c)\<rparr>)\<rparr>)))"

text \<open>\<^verbatim>\<open>object_imp(const object_imp &) = default;\<close> copies \<^verbatim>\<open>vt_\<close> and \<^verbatim>\<open>t_\<close>.\<close>

definition shared_copy :: "object_imp \<Rightarrow> 'v memory \<Rightarrow> object_imp \<times> 'v memory" where
  "shared_copy other m =
     (case shared_ptr_copy (obj_t other) m of
        (t, m') \<Rightarrow> (\<lparr>obj_vt = obj_vt other, obj_t = t\<rparr>, m'))"

text \<open>
  The member initializers \<^verbatim>\<open>vt_(other.get_vtable()), t_(other.t_)\<close> of the constructor
  \<^verbatim>\<open>object_imp(const object_imp<true, OtherSignatures...> &other)\<close>.
\<close>

definition shared_convert_initializers ::
  "signature list \<Rightarrow> signature list \<Rightarrow> object_imp \<Rightarrow> 'v memory \<Rightarrow> error + (object_imp \<times> 'v memory)" where
  "shared_convert_initializers sigs other_sigs other m =
     (case vtable_convert sigs other_sigs (obj_vt other) of
        Inl e \<Rightarrow> Inl e
      | Inr vt \<Rightarrow>
          (case shared_ptr_copy (obj_t other) m of
             (t, m') \<Rightarrow> Inr (\<lparr>obj_vt = vt, obj_t = t\<rparr>, m')))"

text \<open>
  \<^verbatim>\<open>template <typename... OtherSignatures> object_imp(const object_imp<true, OtherSignatures...> &other)\<close>.
  From a handle of the same type the copy constructor is chosen, so this constructor is
  the one used exactly when the two signature lists differ.  Then
  \<^verbatim>\<open>object_imp<true, OtherSignatures...>\<close> is another class than the one being
  constructed; its member \<^verbatim>\<open>t_\<close> is declared before \<^verbatim>\<open>public:\<close> and is private, the
  class declares no friend, and the initializer \<^verbatim>\<open>t_(other.t_)\<close> names it.
\<close>

definition shared_convert ::
  "signature list \<Rightarrow> signature list \<Rightarrow> object_imp \<Rightarrow> 'v memory \<Rightarrow> error + (object_imp \<times> 'v memory)" where
  "shared_convert sigs other_sigs other m =
     (if sigs \<noteq> other_sigs then Inl InaccessibleMember
      else shared_convert_initializers sigs other_sigs other m)"

text \<open>
  The implicit destructor destroys \<^verbatim>\<open>t_\<close>: a non-null \<^verbatim>\<open>std::shared_ptr\<close> counts one
  owner less, and the last owner runs the deleter of the control block.
\<close>

definition shared_destroy :: "object_imp \<Rightarrow> 'v memory \<Rightarrow> error + 'v memory" where
  "shared_destroy x m =
     (case obj_t x of
        None \<Rightarrow> Inr m
      | Some h \<Rightarrow>
          (case controls m h of
             None \<Rightarrow> Inl UndefinedBehavior
           | Some c \<Rightarrow>
               if use_count c > 1
               then Inr (m\<lparr>controls := (controls m)(h \<mapsto> c\<lparr>use_count := use_count c - 1\<rparr>)\<rparr>)
               else (case deleter c of
                       Destroy_holder_imp \<Rightarrow> destroy_holder_imp h (m\<lparr>controls := (controls m)(h := None)\<rparr>)
                     | Delete_holder \<Rightarrow> delete_holder h (m\<lparr>controls := (controls m)(h := None)\<rparr>))))"



section \<open>Well-formed tables and memories\<close>

text \<open>
  A table over the concrete type \<open>T\<close> for the signature list \<open>sigs\<close>: the permutation has
  one element per signature, and the entry of each declared signature leads to a stub
  generated for that signature and \<open>T\<close>.
\<close>

definition vtable_over :: "signature list \<Rightarrow> type_id \<Rightarrow> vtable_imp \<Rightarrow> bool" where
  "vtable_over sigs T v =
     (length (permutation v) = length sigs \<and>
      (\<forall>I < length sigs.
         \<exists>J. call_imp I (static_vt (vptr v)) (permutation v) = Inr (Stub J (sigs ! I) T)))"

text \<open>The allocator hands out addresses that are not in use.\<close>

definition memory_ok :: "'v memory \<Rightarrow> bool" where
  "memory_ok m =
     (\<forall>a. next_addr m \<le> a \<longrightarrow> objects m a = None \<and> holders m a = None)"

text \<open>The memory before anything is allocated.\<close>

definition empty_memory :: "'v memory" where
  "empty_memory =
     \<lparr>objects = Map.empty, holders = Map.empty, controls = Map.empty, next_addr = 0,
      destructor_runs = (\<lambda>a. 0), released = (\<lambda>a. 0)\<rparr>"


section \<open>An example\<close>

text \<open>
  The benchmark declares \<^verbatim>\<open>class draw; int poly_extend(draw*, Dummy&);\<close>: the method tag
  \<^verbatim>\<open>draw\<close> with the signature \<^verbatim>\<open>int(draw)\<close>, implemented by the concrete type
  \<^verbatim>\<open>Dummy\<close>.  A const signature \<^verbatim>\<open>int(area) const\<close> stands for a second method.
\<close>

definition draw :: signature where
  "draw = Signature ''int'' (tag ''draw'') [] False"

definition area :: signature where
  "area = Signature ''int'' (tag ''area'') [] True"

text \<open>
  Free functions for the example: \<^verbatim>\<open>draw\<close> returns the value of the object and adds
  one to it, every other function returns 7.
\<close>

definition example_extend :: "(nat, nat, nat) poly_extend" where
  "example_extend s T v args = (if s = draw then (v, Suc v) else (7, v))"

text \<open>
  In the example every argument and result has the type the signature declares: no
  conversion changes a value.
\<close>

definition exact_types :: "(nat, nat) conversions" where
  "exact_types = \<lparr>to_parameter = (\<lambda>ty x. x), to_return = (\<lambda>ty r. r)\<rparr>"






text \<open>
  A second example, with integers: the signature \<^verbatim>\<open>int(wide, int) const\<close>, implemented
  for \<^verbatim>\<open>Dummy\<close> by
  \<^verbatim>\<open>long long poly_extend(wide *, const Dummy &, long long x) { return x + 5; }\<close>.
  Values are mathematical integers; the conversion to \<^verbatim>\<open>int\<close> keeps the low 32 bits as
  a signed number, the conversion to \<^verbatim>\<open>long long\<close> the low 64.
\<close>

definition wide :: signature where
  "wide = Signature ''int'' (tag ''wide'') [''int''] True"

definition wide_extend :: "(nat, int, int) poly_extend" where
  "wide_extend s T v args = (case args of [x] \<Rightarrow> (x + 5, v) | _ \<Rightarrow> (0, v))"

definition to_type :: "type_id \<Rightarrow> int \<Rightarrow> int" where
  "to_type ty x =
     (if ty = ''int'' then sint (word_of_int x :: 32 word)
      else if ty = ''long long'' then sint (word_of_int x :: 64 word)
      else x)"

definition integral_conversions :: "(int, int) conversions" where
  "integral_conversions = \<lparr>to_parameter = to_type, to_return = to_type\<rparr>"

text \<open>A \<^verbatim>\<open>Dummy\<close> at address 0, and the \<^verbatim>\<open>ref<int(wide, int) const>\<close> over it.\<close>

definition wide_memory :: "nat memory" where
  "wide_memory =
     empty_memory\<lparr>objects := [0 \<mapsto> (''Dummy'', 0)], next_addr := 1\<rparr>"

definition wide_ref :: ref where
  "wide_ref = \<lparr>ref_vt = \<lparr>vptr = Static_vt [wide] ''Dummy'', permutation = [0]\<rparr>, ref_t = Some 0\<rparr>"

section \<open>Auxiliary facts\<close>


lemma index_type_max_eq: "index_type_max = 255"
  by (simp add: index_type_max_def unsigned_minus_1_eq_mask mask_eq_exp_minus_1)

lemma unat_index: "I \<le> 255 \<Longrightarrow> unat (of_nat I :: index_type) = I"
  by (simp add: unat_of_nat take_bit_nat_eq_self)

lemma get_index_Inr:
  assumes "get_index sigs s = Inr I" 
  shows "I < length sigs \<and> sigs ! I = s"
proof -
  from assms have "filter (\<lambda>I. sigs ! I = s) [0..<length sigs] = [I]"
    by (auto simp: get_index_def split: list.splits)
  then have "I \<in> set (filter (\<lambda>I. sigs ! I = s) [0..<length sigs])"
    by simp
  then show ?thesis by simp
qed

lemma filter_eq_upt: "filter (\<lambda>I. I = i) [0..<n] = (if i < n then [i] else [])"
  by (induction n) auto

lemma get_index_nth:
  assumes "distinct sigs" "i < length sigs"
  shows "get_index sigs (sigs ! i) = Inr i"
proof -
  have "filter (\<lambda>I. sigs ! I = sigs ! i) [0..<length sigs] = filter (\<lambda>I. I = i) [0..<length sigs]"
    using assms by (intro filter_cong) (auto simp: nth_eq_iff_index_eq)
  then show ?thesis using assms by (simp add: get_index_def filter_eq_upt)
qed

lemma get_index_mem:
  assumes "distinct sigs" "s \<in> set sigs"
  shows "\<exists>I. get_index sigs s = Inr I"
  using assms get_index_nth by (metis in_set_conv_nth)

lemma call_imp_from_type:
  assumes "vtable_from_type sigs T = Inr v" "I < length sigs"
  shows "call_imp I (static_vt (vptr v)) (permutation v) = Inr (Stub I (sigs ! I) T)"
proof -
  from assms(1) have len: "length sigs \<le> 255"
    and v: "v = \<lparr>vptr = get_vtable sigs T, permutation = map of_nat [0..<length sigs]\<rparr>"
    by (auto simp: vtable_from_type_def static_assert_def index_type_max_eq split: if_splits)
  have "unat (of_nat I :: index_type) = I" using len assms(2) by (simp add: unat_index)
  then show ?thesis using assms(2) by (simp add: v call_imp_def get_vtable_def get_entry_def)
qed

lemma vtable_over_from_type:
  "vtable_from_type sigs T = Inr v \<Longrightarrow> vtable_over sigs T v"
  unfolding vtable_over_def using call_imp_from_type
  by (fastforce simp: vtable_from_type_def split: if_splits)

lemma rebuild_Inr:
  "rebuild os op sigs = Inr p \<Longrightarrow>
     length p = length sigs \<and> (\<forall>j < length sigs. \<exists>I. get_index os (sigs ! j) = Inr I \<and> p ! j = op ! I)"
proof (induction sigs arbitrary: p)
  case Nil
  then show ?case by simp
next
  case (Cons s sigs)
  then obtain I q where I: "get_index os s = Inr I" and q: "rebuild os op sigs = Inr q"
    and p: "p = op ! I # q"
    by (auto split: sum.splits)
  from Cons.IH [OF q] have len: "length q = length sigs"
    and ih: "\<forall>j < length sigs. \<exists>I. get_index os (sigs ! j) = Inr I \<and> q ! j = op ! I"
    by auto
  show ?case
  proof (intro conjI allI impI)
    show "length p = length (s # sigs)" using p len by simp
  next
    fix j assume "j < length (s # sigs)"
    then show "\<exists>I. get_index os ((s # sigs) ! j) = Inr I \<and> p ! j = op ! I"
      using I p ih by (cases j) auto
  qed
qed

lemma rebuild_total:
  "\<forall>s \<in> set sigs. \<exists>I. get_index os s = Inr I \<Longrightarrow> \<exists>p. rebuild os op sigs = Inr p"
  by (induction sigs) auto


lemma subset_length:
  assumes "distinct S'" "set S' \<subseteq> set S"
  shows "length S' \<le> length S"
proof -
  have "length S' = card (set S')" using assms(1) by (simp add: distinct_card)
  also have "\<dots> \<le> card (set S)" using assms(2) by (simp add: card_mono)
  also have "\<dots> \<le> length S" by (rule card_length)
  finally show ?thesis .
qed


lemma get_index_unique:
  assumes "get_index sigs s = Inr I" "j < length sigs" "sigs ! j = s"
  shows "j = I"
proof -
  from assms(1) have "filter (\<lambda>I. sigs ! I = s) [0..<length sigs] = [I]"
    by (auto simp: get_index_def split: list.splits)
  moreover have "j \<in> set (filter (\<lambda>I. sigs ! I = s) [0..<length sigs])"
    using assms(2,3) by simp
  ultimately show ?thesis by simp
qed

lemma declared_once_subset:
  assumes "\<forall>s \<in> set S'. \<exists>I. get_index S s = Inr I"
  shows "set S' \<subseteq> set S"
proof
  fix s assume "s \<in> set S'"
  then obtain I where "get_index S s = Inr I" using assms by blast
  from get_index_Inr [OF this] show "s \<in> set S" by auto
qed

lemma declared_once_distinct:
  assumes "distinct S" "set S' \<subseteq> set S"
  shows "\<forall>s \<in> set S'. \<exists>I. get_index S s = Inr I"
  using assms get_index_mem by blast

lemma vtable_convert_total:
  assumes "distinct S'" "\<forall>s \<in> set S'. \<exists>I. get_index S s = Inr I" "static_assert S"
  shows "\<exists>v. vtable_convert S' S src = Inr v"
proof -
  have sa: "static_assert S'"
    using subset_length [OF assms(1) declared_once_subset [OF assms(2)]] assms(3)
    by (simp add: static_assert_def)
  obtain p where "rebuild S (permutation src) S' = Inr p"
    using rebuild_total [OF assms(2)] by blast
  then show ?thesis using sa by (simp add: vtable_convert_def)
qed

lemma vtable_convert_entries:
  assumes "vtable_convert S' S src = Inr dst" "\<forall>s \<in> set S'. \<exists>I. get_index S s = Inr I"
    "length (permutation src) = length S"
  shows "vptr dst = vptr src \<and> length (permutation dst) = length S' \<and>
         (\<forall>j < length S'. \<exists>I. get_index S (S' ! j) = Inr I \<and> permutation dst ! j = permutation src ! I)"
proof (cases "S' = S")
  case True
  then have dst: "dst = src" using assms(1) by (simp add: vtable_convert_def split: if_splits)
  have "\<exists>I. get_index S (S ! j) = Inr I \<and> permutation src ! j = permutation src ! I"
    if j: "j < length S" for j
  proof -
    have "S ! j \<in> set S'" using True j by simp
    then obtain I where I: "get_index S (S ! j) = Inr I" using assms(2) by blast
    from get_index_unique [OF I j] have "j = I" by simp
    then show ?thesis using I by auto
  qed
  then show ?thesis using True dst assms(3) by auto
next
  case False
  then obtain p where p: "rebuild S (permutation src) S' = Inr p"
    and dst: "dst = \<lparr>vptr = vptr src, permutation = p\<rparr>"
    using assms(1) by (auto simp: vtable_convert_def split: if_splits sum.splits)
  from rebuild_Inr [OF p] show ?thesis by (simp add: dst)
qed


lemma vtable_call_over:
  assumes "vtable_over sigs T vt" "get_index sigs s = Inr I"
  shows "\<exists>J. vtable_call sigs vt s = Inr (Stub J s T)"
  using assms get_index_Inr [OF assms(2)]
  by (auto simp: vtable_over_def vtable_call_def)

lemma poly_extend_at_result:
  assumes "objects m a = Some (T, v)"
  shows "map_sum id fst (poly_extend_at pe s T a args m) =
           Inr (if meth s = clone \<and> parameters s = [] then Unique_ptr (Some (next_addr m))
                else Value (fst (pe s T v args)))"
  using assms
  by (simp add: poly_extend_at_def new_holder_imp_def Let_def split: prod.splits)

lemma poly_extend_at_frame:
  assumes "poly_extend_at pe s T a args m = Inr (r, m')" "b \<noteq> a" "b < next_addr m"
  shows "objects m' b = objects m b \<and> holders m' b = holders m b"
  using assms
  by (auto simp: poly_extend_at_def new_holder_imp_def Let_def
      split: option.splits prod.splits if_splits)

lemma new_holder_imp_eq:
  "new_holder_imp T v m =
     (next_addr m, m\<lparr>objects := (objects m)(Suc (next_addr m) \<mapsto> (T, v)),
                      holders := (holders m)(next_addr m \<mapsto> Suc (next_addr m)),
                      next_addr := Suc (Suc (next_addr m))\<rparr>)"
  by (simp add: new_holder_imp_def Let_def)

lemma pass_parameters_none: "parameters s = [] \<Longrightarrow> pass_parameters cv s [] = Inr []"
  by (simp add: pass_parameters_def)

lemma returning_fst:
  "map_sum id fst (returning cv s R) = map_sum id (return_result cv s) (map_sum id fst R)"
  by (cases "(cv, s, R)" rule: returning.cases) auto

lemma returning_Inr:
  assumes "returning cv s R = Inr (r, m')"
  shows "\<exists>r0. R = Inr (r0, m') \<and> r = return_result cv s r0"
  using assms by (cases "(cv, s, R)" rule: returning.cases) auto

lemma invoke_Stub:
  "invoke cv pe (Stub K s T) (Some a) args m =
     (case pass_parameters cv s args of
        Inl e \<Rightarrow> Inl e
      | Inr ps \<Rightarrow> returning cv s (poly_extend_at pe s T a ps m))"
  by (simp add: invoke_def split: sum.splits)

lemma invoke_result:
  assumes "objects m a = Some (T, v)"
  shows "map_sum id fst (invoke cv pe (Stub K s T) (Some a) args m) =
           (case pass_parameters cv s args of
              Inl e \<Rightarrow> Inl e
            | Inr ps \<Rightarrow>
                Inr (return_result cv s
                      (if meth s = clone \<and> parameters s = [] then Unique_ptr (Some (next_addr m))
                       else Value (fst (pe s T v ps)))))"
  by (simp add: invoke_Stub returning_fst poly_extend_at_result [OF assms] split: sum.splits)

lemma invoke_frame:
  assumes "invoke cv pe (Stub K s T) (Some a) args m = Inr (r, m')" "b \<noteq> a" "b < next_addr m"
  shows "objects m' b = objects m b \<and> holders m' b = holders m b"
proof -
  from assms(1) obtain ps where "returning cv s (poly_extend_at pe s T a ps m) = Inr (r, m')"
    by (auto simp: invoke_Stub split: sum.splits)
  from returning_Inr [OF this] obtain r0 where "poly_extend_at pe s T a ps m = Inr (r0, m')"
    by blast
  from poly_extend_at_frame [OF this assms(2,3)] show ?thesis .
qed

lemma invoke_clone:
  assumes "objects m a = Some (T, v)"
  shows "invoke cv pe (Stub K copyable T) (Some a) [] m =
           Inr (Unique_ptr (Some (next_addr m)), snd (new_holder_imp T v m))"
  using assms
  by (simp add: invoke_Stub pass_parameters_def poly_extend_at_def copyable_def new_holder_imp_eq)

lemma shared_ptr_copy_frame:
  "shared_ptr_copy t m = (t', m') \<Longrightarrow>
     t' = t \<and> objects m' = objects m \<and> holders m' = holders m \<and> next_addr m' = next_addr m"
  by (auto simp: shared_ptr_copy_def split: option.splits)

lemma vtable_call_from_type:
  assumes "vtable_from_type sigs T = Inr v" "get_index sigs s = Inr I"
  shows "vtable_call sigs v s = Inr (Stub I s T)"
  using call_imp_from_type [OF assms(1)] get_index_Inr [OF assms(2)] assms(2)
  by (simp add: vtable_call_def)

lemma static_assert_example: "static_assert [draw, copyable]"
  by (simp add: static_assert_def index_type_max_eq)

lemma get_index_example:
  "get_index [draw, copyable] draw = Inr 0" "get_index [draw, copyable] copyable = Inr 1"
  by (simp_all add: get_index_def draw_def copyable_def upt_conv_Cons)

lemma static_assert_shared_example: "static_assert [area, copyable]"
  by (simp add: static_assert_def index_type_max_eq)

lemma vtable_from_type_example:
  "vtable_from_type [draw, copyable] ''Dummy''
     = Inr \<lparr>vptr = Static_vt [draw, copyable] ''Dummy'', permutation = [0, 1]\<rparr>"
  "vtable_from_type [area, copyable] ''Dummy''
     = Inr \<lparr>vptr = Static_vt [area, copyable] ''Dummy'', permutation = [0, 1]\<rparr>"
  by (simp_all add: vtable_from_type_def static_assert_def index_type_max_eq get_vtable_def
      upt_conv_Cons)

lemma shared_convert_initializers_share:
  assumes "distinct S" and "distinct S'" and "set S' \<subseteq> set S"
    and "static_assert S" and "length (permutation (obj_vt H)) = length S"
  shows "\<exists>H2 m2. shared_convert_initializers S' S H m = Inr (H2, m2) \<and>
      vtable_convert S' S (obj_vt H) = Inr (obj_vt H2) \<and>
      vptr (obj_vt H2) = vptr (obj_vt H) \<and>
      (\<forall>j < length S'. \<exists>I. get_index S (S' ! j) = Inr I \<and>
          permutation (obj_vt H2) ! j = permutation (obj_vt H) ! I) \<and>
      obj_t H2 = obj_t H \<and>
      object_get_ptr H2 m2 = object_get_ptr H m \<and>
      objects m2 = objects m \<and> holders m2 = holders m \<and> next_addr m2 = next_addr m"
proof -
  note once = declared_once_distinct [OF assms(1,3)]
  obtain v where v: "vtable_convert S' S (obj_vt H) = Inr v"
    using vtable_convert_total [OF assms(2) once assms(4)] by blast
  obtain t m2 where c: "shared_ptr_copy (obj_t H) m = (t, m2)"
    by (cases "shared_ptr_copy (obj_t H) m")
  have d: "shared_convert_initializers S' S H m = Inr (\<lparr>obj_vt = v, obj_t = t\<rparr>, m2)"
    by (simp add: shared_convert_initializers_def v c)
  from shared_ptr_copy_frame [OF c] vtable_convert_entries [OF v once assms(5)] d v
  show ?thesis by (simp add: object_get_ptr_def split: option.splits)
qed

lemma vtable_from_type_object_example:
  "vtable_from_type (object_signatures [draw]) ''Dummy''
     = Inr \<lparr>vptr = Static_vt [draw, copyable] ''Dummy'', permutation = [0, 1]\<rparr>"
  "vtable_from_type (object_signatures [area]) ''Dummy''
     = Inr \<lparr>vptr = Static_vt [area, copyable] ''Dummy'', permutation = [0, 1]\<rparr>"
  by (simp_all add: object_signatures_def vtable_from_type_example)

lemma object_destroy_runs_no_destructor:
  "object_destroy x m = Inr m' \<Longrightarrow> destructor_runs m' = destructor_runs m"
  by (auto simp: object_destroy_def delete_holder_def split: option.splits)

lemma shared_value_destroyed_once:
  "\<exists>x m m'. shared_from_value (object_signatures [area]) ''Dummy'' (5 :: nat) empty_memory = Inr (x, m) \<and>
      object_get_ptr x m = Inr (Some 1) \<and> shared_destroy x m = Inr m' \<and>
      released m' 0 = 1 \<and> destructor_runs m' 1 = 1"
  by (simp add: shared_from_value_def vtable_from_type_object_example new_holder_imp_def Let_def
      empty_memory_def object_get_ptr_def shared_destroy_def destroy_holder_imp_def)

lemma object_copy_assign_never_returns:
  "object_copy_assign fuel cv pe sigs this other m \<noteq> Some (Inr y)"
  by (cases fuel) (auto split: sum.splits option.splits prod.splits)

lemma object_from_ref_no_signatures:
  assumes "sigs \<noteq> []" "static_assert sigs"
  shows "object_from_ref cv pe sigs [] r m = Inl NoMatchingFunction"
proof -
  obtain s ss where "sigs = s # ss" using assms(1) by (cases sigs) auto
  then have "rebuild [] (permutation (ref_vt r)) sigs = Inl NoMatchingFunction"
    by (simp add: get_index_def)
  then show ?thesis using assms by (simp add: object_from_ref_def vtable_convert_def)
qed

lemma object_copy_assign_rejected:
  assumes "sigs \<noteq> []" "static_assert sigs" "object_get_ptr other m = Inr t"
  shows "object_copy_assign (Suc fuel) cv pe sigs this other m = Some (Inl NoMatchingFunction)"
proof -
  have "vtable_convert [] sigs (obj_vt other) = Inr \<lparr>vptr = vptr (obj_vt other), permutation = []\<rparr>"
    using assms(1) by (auto simp: vtable_convert_def static_assert_def)
  then have "ref_from_object [] sigs other m
      = Inr \<lparr>ref_vt = \<lparr>vptr = vptr (obj_vt other), permutation = []\<rparr>, ref_t = t\<rparr>"
    using assms(3) by (simp add: ref_from_object_def all_const_def)
  then show ?thesis
    by (simp add: object_from_ref_no_signatures [OF assms(1,2)])
qed

section \<open>Properties of tables\<close>

text \<open>
  C6, as the code has it: a table is accepted exactly when it declares at most 255
  signatures, the largest value of \<^verbatim>\<open>index_type\<close>; 256 or more are rejected.
\<close>

theorem static_assert_255:
  "(\<exists>v. vtable_from_type sigs T = Inr v) = (length sigs \<le> 255)"
  by (simp add: vtable_from_type_def static_assert_def index_type_max_eq)

text \<open>
  C6, as the claim states it, fails: a table of 256 signatures, here \<^verbatim>\<open>int(draw)\<close>,
  \<^verbatim>\<open>int(draw, int)\<close>, \<^verbatim>\<open>int(draw, int, int)\<close> and so on, is rejected.
\<close>

theorem static_assert_256_rejected:
  "vtable_from_type (map (\<lambda>n. Signature ''int'' (tag ''draw'') (replicate n ''int'') False) [0..<256])
     ''Dummy'' = Inl StaticAssertFailed"
  by (simp add: vtable_from_type_def static_assert_def index_type_max_eq)

text \<open>
  C9: a table constructed from a concrete type has the identity permutation: one element
  per signature, and the element at every position \<open>i\<close> is \<open>i\<close>.
\<close>

theorem identity_permutation:
  assumes "vtable_from_type sigs T = Inr v"
  shows "length (permutation v) = length sigs \<and>
         (\<forall>i < length sigs. permutation v ! i = of_nat i \<and> unat (permutation v ! i) = i)"
proof -
  from assms have len: "length sigs \<le> 255"
    and v: "permutation v = map of_nat [0..<length sigs]"
    by (auto simp: vtable_from_type_def static_assert_def index_type_max_eq split: if_splits)
  show ?thesis using len by (simp add: v unat_index)
qed

theorem identity_permutation_witness:
  "vtable_from_type [draw, area, copyable] ''Dummy''
     = Inr \<lparr>vptr = Static_vt [draw, area, copyable] ''Dummy'', permutation = [0, 1, 2]\<rparr> \<and>
   length [0, 1, 2 :: index_type] = length [draw, area, copyable] \<and>
   unat ([0, 1, 2 :: index_type] ! 0) = 0 \<and>
   unat ([0, 1, 2 :: index_type] ! 1) = 1 \<and>
   unat ([0, 1, 2 :: index_type] ! 2) = 2"
proof -
  let ?v = "\<lparr>vptr = Static_vt [draw, area, copyable] ''Dummy'', permutation = [0, 1, 2]\<rparr>"
  have h: "vtable_from_type [draw, area, copyable] ''Dummy'' = Inr ?v"
    by (simp add: vtable_from_type_def static_assert_def index_type_max_eq get_vtable_def
        upt_conv_Cons)
  from identity_permutation [OF h]
  have a: "\<forall>i < length [draw, area, copyable]. unat (permutation ?v ! i) = i"
    and l: "length (permutation ?v) = length [draw, area, copyable]"
    by blast+
  have "unat (permutation ?v ! 0) = 0" "unat (permutation ?v ! 1) = 1"
    "unat (permutation ?v ! 2) = 2"
    using a by simp_all
  then show ?thesis using h l by simp
qed

text \<open>
  C10: a table converted from another table points to the same static array of stubs as
  its source; the conversion builds a permutation only.
\<close>

theorem convert_keeps_vptr:
  assumes "vtable_convert sigs other_sigs other = Inr v"
  shows "vptr v = vptr other \<and> static_vt (vptr v) = static_vt (vptr other)"
  using assms by (auto simp: vtable_convert_def split: if_splits sum.splits)

theorem convert_keeps_vptr_witness:
  "vtable_convert [copyable, draw] [draw, area, copyable]
       \<lparr>vptr = Static_vt [draw, area, copyable] ''Dummy'', permutation = [0, 1, 2]\<rparr>
     = Inr \<lparr>vptr = Static_vt [draw, area, copyable] ''Dummy'', permutation = [2, 0]\<rparr>"
proof -
  have h: "vtable_convert [copyable, draw] [draw, area, copyable]
       \<lparr>vptr = Static_vt [draw, area, copyable] ''Dummy'', permutation = [0, 1, 2]\<rparr>
     = Inr \<lparr>vptr = Static_vt [draw, area, copyable] ''Dummy'', permutation = [2, 0]\<rparr>"
    by (simp add: vtable_convert_def static_assert_def index_type_max_eq get_index_def
        draw_def area_def copyable_def upt_conv_Cons)
  show ?thesis using convert_keeps_vptr [OF h] h by simp
qed


section \<open>Dispatch\<close>








lemma returning_exact:
  assumes "\<forall>y. to_return cv (return s) y = y"
  shows "returning cv s R = R"
proof (cases R)
  case (Inl e)
  then show ?thesis by simp
next
  case (Inr rm)
  obtain r m where rm: "rm = (r, m)" by (cases rm)
  show ?thesis using assms by (cases r) (simp_all add: Inr rm)
qed

lemma wide_examples:
  "static_assert [wide]" "get_index [wide] wide = Inr 0"
  "pass_parameters integral_conversions wide [4294967299] = Inr [3]"
  "vtable_from_type [wide] ''Dummy'' = Inr \<lparr>vptr = Static_vt [wide] ''Dummy'', permutation = [0]\<rparr>"
  by (simp_all add: static_assert_def index_type_max_eq get_index_def pass_parameters_def
      integral_conversions_def to_type_def wide_def vtable_from_type_def get_vtable_def)

text \<open>
  C2, as the claim states it, fails.  The signature \<^verbatim>\<open>int(wide, int) const\<close> is implemented
  by a free function that takes \<^verbatim>\<open>long long\<close> and adds 5.  Called through a \<^verbatim>\<open>ref\<close> with
  the argument 4294967299, the argument is passed as the \<^verbatim>\<open>int\<close> the signature declares,
  which is 3, and the call returns 8; the free function called directly with that
  argument returns 4294967304.
\<close>

theorem call_converts_arguments:
  "ref_from_value [wide] ''Dummy'' 0 = Inr wide_ref \<and>
   ref_call integral_conversions wide_extend [wide] wide_ref wide [4294967299] wide_memory
     = Inr (Value 8, wide_memory) \<and>
   poly_extend_at wide_extend wide ''Dummy'' 0 [4294967299] wide_memory
     = Inr (Value 4294967304, wide_memory)"
proof -
  have r: "ref_from_value [wide] ''Dummy'' 0 = Inr wide_ref"
    by (simp add: ref_from_value_def wide_examples wide_ref_def)
  have c: "vtable_call [wide] (ref_vt wide_ref) wide = Inr (Stub 0 wide ''Dummy'')"
    using vtable_call_from_type [OF wide_examples(4) wide_examples(2)]
    by (simp add: wide_ref_def)
  have d: "poly_extend_at wide_extend wide ''Dummy'' 0 [x] wide_memory
     = Inr (Value (x + 5), wide_memory)" for x
    by (simp add: poly_extend_at_def wide_memory_def wide_def wide_extend_def)
  have t: "ref_t wide_ref = Some 0" by (simp add: wide_ref_def)
  have e: "returning integral_conversions wide (Inr (Value 8, wide_memory))
     = Inr (Value (to_type ''int'' 8), wide_memory)"
    by (simp add: integral_conversions_def wide_def)
  have "ref_call integral_conversions wide_extend [wide] wide_ref wide [4294967299] wide_memory
     = Inr (Value (to_type ''int'' 8), wide_memory)"
    using e by (simp add: ref_call_def c invoke_def wide_examples(3) d t)
  then show ?thesis using r d by (simp add: to_type_def)
qed

text \<open>
  C2, as the code has it: let \<open>s\<close> be a signature that the list \<open>sigs\<close> declares once, let
  the list pass the size assertion, and let \<open>args\<close> be as many arguments as \<open>s\<close> has
  parameters; \<open>ps\<close> are these arguments converted to the parameter types that \<open>s\<close>
  declares.  A \<^verbatim>\<open>ref\<close> over the object of type \<open>T\<close> at address \<open>a\<close> is constructed, and
  a call of \<open>s\<close> on it returns what the free function of \<open>s\<close> and \<open>T\<close> does on that
  object for the arguments \<open>ps\<close>, converted to the return type that \<open>s\<close> declares, with
  the same effect on the memory.  An owning handle of either shape constructed from a
  value \<open>v\<close> of type \<open>T\<close> holds an object of type \<open>T\<close> with value \<open>v\<close>, and a call on it
  does the same on the held object.  Where no conversion changes a value (the arguments
  have the declared parameter types and the function returns the declared type), the call
  is the free function called directly with \<open>args\<close>.
\<close>

theorem call_is_poly_extend:
  assumes "static_assert sigs" and "get_index sigs s = Inr I"
    and "pass_parameters cv s args = Inr ps"
  shows "(\<exists>r. ref_from_value sigs T a = Inr r \<and>
            (\<forall>m. ref_call cv pe sigs r s args m = returning cv s (poly_extend_at pe s T a ps m)) \<and>
            (ps = args \<and> (\<forall>y. to_return cv (return s) y = y) \<longrightarrow>
               (\<forall>m. ref_call cv pe sigs r s args m = poly_extend_at pe s T a args m))) \<and>
         (\<exists>x m' p. object_from_value sigs T v m = Inr (x, m') \<and>
            object_get_ptr x m' = Inr (Some p) \<and> objects m' p = Some (T, v) \<and>
            object_call cv pe sigs x s args m' = returning cv s (poly_extend_at pe s T p ps m') \<and>
            (ps = args \<and> (\<forall>y. to_return cv (return s) y = y) \<longrightarrow>
               object_call cv pe sigs x s args m' = poly_extend_at pe s T p args m')) \<and>
         (\<exists>x m' p. shared_from_value sigs T v m = Inr (x, m') \<and>
            object_get_ptr x m' = Inr (Some p) \<and> objects m' p = Some (T, v) \<and>
            object_call cv pe sigs x s args m' = returning cv s (poly_extend_at pe s T p ps m') \<and>
            (ps = args \<and> (\<forall>y. to_return cv (return s) y = y) \<longrightarrow>
               object_call cv pe sigs x s args m' = poly_extend_at pe s T p args m'))"
proof -
  obtain vt where vt: "vtable_from_type sigs T = Inr vt"
    using assms(1) by (simp add: vtable_from_type_def)
  have c: "vtable_call sigs vt s = Inr (Stub I s T)"
    using vtable_call_from_type [OF vt assms(2)] .
  have i: "invoke cv pe (Stub I s T) (Some b) args n = returning cv s (poly_extend_at pe s T b ps n)"
    for b and n :: "'c memory"
    by (simp add: invoke_Stub assms(3))
  let ?r = "\<lparr>ref_vt = vt, ref_t = Some a\<rparr>"
  have r0: "ref_from_value sigs T a = Inr ?r"
    by (simp add: ref_from_value_def vt)
  have r1: "ref_call cv pe sigs ?r s args n = returning cv s (poly_extend_at pe s T a ps n)"
    for n :: "'c memory"
    by (simp add: ref_call_def c i)
  have r: "\<exists>r. ref_from_value sigs T a = Inr r \<and>
            (\<forall>m. ref_call cv pe sigs r s args m = returning cv s (poly_extend_at pe s T a ps m)) \<and>
            (ps = args \<and> (\<forall>y. to_return cv (return s) y = y) \<longrightarrow>
               (\<forall>m. ref_call cv pe sigs r s args m = poly_extend_at pe s T a args m))"
    using r0 r1 by (auto simp: returning_exact)
  obtain h m2 where nh: "new_holder_imp T v m = (h, m2)" by (cases "new_holder_imp T v m")
  then have m2: "holders m2 h = Some (Suc h)" "objects m2 (Suc h) = Some (T, v)"
    by (auto simp: new_holder_imp_eq)
  let ?x = "\<lparr>obj_vt = vt, obj_t = Some h\<rparr>"
  have o0: "object_from_value sigs T v m = Inr (?x, m2)"
    by (simp add: object_from_value_def vt nh)
  have g: "object_get_ptr ?x n = Inr (Some (Suc h))" if "holders n h = Some (Suc h)"
    for n :: "'c memory"
    using that by (simp add: object_get_ptr_def)
  have o1: "object_call cv pe sigs ?x s args n = returning cv s (poly_extend_at pe s T (Suc h) ps n)"
    if "holders n h = Some (Suc h)" for n :: "'c memory"
    by (simp add: object_call_def c g [OF that] i)
  have o: "\<exists>x m' p. object_from_value sigs T v m = Inr (x, m') \<and>
            object_get_ptr x m' = Inr (Some p) \<and> objects m' p = Some (T, v) \<and>
            object_call cv pe sigs x s args m' = returning cv s (poly_extend_at pe s T p ps m') \<and>
            (ps = args \<and> (\<forall>y. to_return cv (return s) y = y) \<longrightarrow>
               object_call cv pe sigs x s args m' = poly_extend_at pe s T p args m')"
    using o0 g [OF m2(1)] m2(2) o1 [OF m2(1)] by (auto simp: returning_exact)
  let ?m3 = "m2\<lparr>controls := (controls m2)(h \<mapsto> \<lparr>use_count = 1, deleter = Destroy_holder_imp\<rparr>)\<rparr>"
  have s0: "shared_from_value sigs T v m = Inr (?x, ?m3)"
    by (simp add: shared_from_value_def vt nh)
  have m3: "holders ?m3 h = Some (Suc h)" "objects ?m3 (Suc h) = Some (T, v)"
    using m2 by simp_all
  have sh: "\<exists>x m' p. shared_from_value sigs T v m = Inr (x, m') \<and>
            object_get_ptr x m' = Inr (Some p) \<and> objects m' p = Some (T, v) \<and>
            object_call cv pe sigs x s args m' = returning cv s (poly_extend_at pe s T p ps m') \<and>
            (ps = args \<and> (\<forall>y. to_return cv (return s) y = y) \<longrightarrow>
               object_call cv pe sigs x s args m' = poly_extend_at pe s T p args m')"
    using s0 g [OF m3(1)] m3(2) o1 [OF m3(1)] by (auto simp: returning_exact)
  show ?thesis using r o sh by blast
qed

lemma exact_types_examples:
  "pass_parameters exact_types draw [] = Inr []" "\<forall>y. to_return exact_types (return draw) y = y"
  by (simp_all add: pass_parameters_def draw_def exact_types_def)

theorem call_is_poly_extend_witness:
  "static_assert [wide] \<and> get_index [wide] wide = Inr 0 \<and>
   pass_parameters integral_conversions wide [4294967299] = Inr [3] \<and>
   (\<exists>r. ref_from_value [wide] ''Dummy'' 0 = Inr r \<and>
      ref_call integral_conversions wide_extend [wide] r wide [4294967299] wide_memory
        = Inr (Value 8, wide_memory)) \<and>
   static_assert [draw, copyable] \<and> get_index [draw, copyable] draw = Inr 0 \<and>
   pass_parameters exact_types draw [] = Inr [] \<and>
   (\<exists>x m'. object_from_value [draw, copyable] ''Dummy'' 5 empty_memory = Inr (x, m') \<and>
      map_sum id fst (object_call exact_types example_extend [draw, copyable] x draw [] m')
        = Inr (Value 5))"
proof -
  note w = call_is_poly_extend [OF wide_examples(1-3),
      where pe = wide_extend and T = "''Dummy''" and a = 0 and v = 0 and m = wide_memory]
  have "poly_extend_at wide_extend wide ''Dummy'' 0 [3] wide_memory = Inr (Value 8, wide_memory)"
    by (simp add: poly_extend_at_def wide_memory_def wide_def wide_extend_def)
  moreover have "returning integral_conversions wide (Inr (Value 8, wide_memory))
     = Inr (Value 8, wide_memory)"
    by (simp add: integral_conversions_def wide_def to_type_def)
  ultimately have e: "returning integral_conversions wide
      (poly_extend_at wide_extend wide ''Dummy'' 0 [3] wide_memory) = Inr (Value 8, wide_memory)"
    by simp
  from w obtain r where r: "ref_from_value [wide] ''Dummy'' 0 = Inr r"
    "\<forall>m. ref_call integral_conversions wide_extend [wide] r wide [4294967299] m
        = returning integral_conversions wide (poly_extend_at wide_extend wide ''Dummy'' 0 [3] m)"
    by blast
  then have a: "\<exists>r. ref_from_value [wide] ''Dummy'' 0 = Inr r \<and>
      ref_call integral_conversions wide_extend [wide] r wide [4294967299] wide_memory
        = Inr (Value 8, wide_memory)"
    using e by auto
  note t = call_is_poly_extend [OF static_assert_example get_index_example(1) exact_types_examples(1),
      where pe = example_extend and T = "''Dummy''" and a = 0 and v = 5 and m = empty_memory]
  from t exact_types_examples(2)
  obtain x m' p where x: "object_from_value [draw, copyable] ''Dummy'' 5 empty_memory = Inr (x, m')"
    "objects m' p = Some (''Dummy'', 5)"
    "object_call exact_types example_extend [draw, copyable] x draw [] m'
        = poly_extend_at example_extend draw ''Dummy'' p [] m'"
    by blast
  have "map_sum id fst (object_call exact_types example_extend [draw, copyable] x draw [] m')
      = Inr (Value 5)"
    using x(3) poly_extend_at_result [OF x(2), of example_extend draw "[]"]
    by (simp add: draw_def example_extend_def)
  then have b: "\<exists>x m'. object_from_value [draw, copyable] ''Dummy'' 5 empty_memory = Inr (x, m') \<and>
      map_sum id fst (object_call exact_types example_extend [draw, copyable] x draw [] m')
        = Inr (Value 5)"
    using x(1) by blast
  show ?thesis
    using wide_examples(1-3) a static_assert_example get_index_example(1)
      exact_types_examples(1) b by blast
qed

section \<open>Owning handles\<close>

text \<open>
  C8: the copy of a shared owning handle holds the same holder as its source.  Both
  handles report the same erased address, the one the source reported before; no object
  and no holder is created, and nothing is allocated.
\<close>

theorem shared_copy_shares:
  "\<exists>H2 m2. shared_copy H m = (H2, m2) \<and> obj_vt H2 = obj_vt H \<and> obj_t H2 = obj_t H \<and>
      object_get_ptr H2 m2 = object_get_ptr H m2 \<and>
      object_get_ptr H2 m2 = object_get_ptr H m \<and>
      objects m2 = objects m \<and> holders m2 = holders m \<and> next_addr m2 = next_addr m"
proof -
  obtain t m2 where c: "shared_ptr_copy (obj_t H) m = (t, m2)"
    by (cases "shared_ptr_copy (obj_t H) m")
  from shared_ptr_copy_frame [OF c] show ?thesis
    by (simp add: shared_copy_def c object_get_ptr_def split: option.splits)
qed

text \<open>
  C5, on the code: the constructor that takes a shared owning handle with another
  signature list initializes \<^verbatim>\<open>t_\<close> from the private member \<^verbatim>\<open>t_\<close> of another class, so
  the construction is rejected.  Here a handle declared for \<^verbatim>\<open>int(area) const\<close> (its list
  is \<^verbatim>\<open>area\<close>, \<^verbatim>\<open>copyable\<close>) is converted to the list \<^verbatim>\<open>copyable\<close>, \<^verbatim>\<open>area\<close>.  What the
  two initializers would do is \<open>shared_convert_initializers_share\<close>.
\<close>

theorem shared_convert_inaccessible:
  "\<exists>H m. shared_from_value [area, copyable] ''Dummy'' (5 :: nat) empty_memory = Inr (H, m) \<and>
      object_get_ptr H m = Inr (Some 1) \<and>
      shared_convert [copyable, area] [area, copyable] H m = Inl InaccessibleMember"
proof -
  have ne: "copyable \<noteq> area"
    by (simp add: area_def copyable_def)
  show ?thesis
    by (simp add: shared_from_value_def vtable_from_type_example new_holder_imp_def Let_def
        empty_memory_def object_get_ptr_def shared_convert_def ne)
qed

text \<open>
  C7: let \<open>H\<close> be a mutable owning handle over the concrete type \<open>T\<close> whose list \<open>sigs\<close>
  declares \<^verbatim>\<open>copyable\<close> once, in a memory whose allocator is sound.  If \<open>H\<close> is empty,
  its copy is empty.  If \<open>H\<close> holds a holder with an object of type \<open>T\<close> and value
  \<open>v\<close>, the copy \<open>H2\<close> holds another holder with another object, of the same type and
  value; \<open>H\<close> still holds its own.  Every call of a declared signature returns the same
  on \<open>H2\<close> as on \<open>H\<close>, and whatever is called on \<open>H2\<close>, the object of \<open>H\<close> keeps its
  value.
\<close>

theorem object_copy_deep:
  assumes ok: "memory_ok m" and over: "vtable_over sigs T (obj_vt H)"
    and cp: "get_index sigs copyable = Inr Ic"
  shows "(obj_t H = None \<longrightarrow>
            object_copy cv pe sigs H m = Inr (\<lparr>obj_vt = obj_vt H, obj_t = None\<rparr>, m)) \<and>
         (\<forall>h p v. obj_t H = Some h \<and> holders m h = Some p \<and> objects m p = Some (T, v) \<longrightarrow>
            (\<exists>H2 m2 h2 p2. object_copy cv pe sigs H m = Inr (H2, m2) \<and>
               obj_vt H2 = obj_vt H \<and> obj_t H2 = Some h2 \<and> h2 \<noteq> h \<and>
               object_get_ptr H2 m2 = Inr (Some p2) \<and> object_get_ptr H m2 = Inr (Some p) \<and>
               p2 \<noteq> p \<and> objects m2 p2 = Some (T, v) \<and> objects m2 p = Some (T, v) \<and>
               (\<forall>s I args. get_index sigs s = Inr I \<longrightarrow>
                   map_sum id fst (object_call cv pe sigs H2 s args m2)
                 = map_sum id fst (object_call cv pe sigs H s args m2)) \<and>
               (\<forall>s args r m3. object_call cv pe sigs H2 s args m2 = Inr (r, m3) \<longrightarrow>
                   objects m3 p = Some (T, v) \<and> object_get_ptr H m3 = Inr (Some p))))"
proof (intro conjI allI impI)
  assume "obj_t H = None"
  then show "object_copy cv pe sigs H m = Inr (\<lparr>obj_vt = obj_vt H, obj_t = None\<rparr>, m)"
    by (simp add: object_copy_def object_bool_def)
next
  fix h p v
  assume a: "obj_t H = Some h \<and> holders m h = Some p \<and> objects m p = Some (T, v)"
  then have t: "obj_t H = Some h" and hp: "holders m h = Some p"
    and pv: "objects m p = Some (T, v)" by auto
  define h2 where "h2 = next_addr m"
  define p2 where "p2 = Suc h2"
  define m2 where "m2 = m\<lparr>objects := (objects m)(p2 \<mapsto> (T, v)),
      holders := (holders m)(h2 \<mapsto> p2), next_addr := Suc p2\<rparr>"
  define H2 where "H2 = \<lparr>obj_vt = obj_vt H, obj_t = Some h2\<rparr>"
  have lt: "p < next_addr m" "h < next_addr m"
    using ok hp pv by (auto simp: memory_ok_def not_le [symmetric])
  then have ne: "p2 \<noteq> p" "h2 \<noteq> h" "p \<noteq> h2" "h \<noteq> p2"
    by (auto simp: h2_def p2_def)
  obtain J where J: "vtable_call sigs (obj_vt H) copyable = Inr (Stub J copyable T)"
    using vtable_call_over [OF over cp] by blast
  have gp: "object_get_ptr H m = Inr (Some p)"
    by (simp add: object_get_ptr_def t hp)
  have cl: "invoke cv pe (Stub J copyable T) (Some p) [] m = Inr (Unique_ptr (Some h2), m2)"
    using invoke_clone [OF pv] by (simp add: new_holder_imp_eq h2_def p2_def m2_def)
  have copy: "object_copy cv pe sigs H m = Inr (H2, m2)"
    by (simp add: object_copy_def object_bool_def t object_call_def J gp cl H2_def)
  have g2: "object_get_ptr H2 m2 = Inr (Some p2)"
    by (simp add: object_get_ptr_def H2_def m2_def)
  have g1: "object_get_ptr H m2 = Inr (Some p)"
    using ne by (simp add: object_get_ptr_def t m2_def hp)
  have o2: "objects m2 p2 = Some (T, v)" by (simp add: m2_def)
  have o1: "objects m2 p = Some (T, v)" using ne pv by (simp add: m2_def)
  have same: "\<forall>s I args. get_index sigs s = Inr I \<longrightarrow>
                   map_sum id fst (object_call cv pe sigs H2 s args m2)
                 = map_sum id fst (object_call cv pe sigs H s args m2)"
  proof (intro allI impI)
    fix s I args assume "get_index sigs s = Inr I"
    then obtain K where K: "vtable_call sigs (obj_vt H) s = Inr (Stub K s T)"
      using vtable_call_over [OF over] by blast
    have "object_call cv pe sigs H2 s args m2 = invoke cv pe (Stub K s T) (Some p2) args m2"
      by (simp add: object_call_def H2_def K g2 [unfolded H2_def])
    moreover have "object_call cv pe sigs H s args m2 = invoke cv pe (Stub K s T) (Some p) args m2"
      by (simp add: object_call_def K g1)
    ultimately show "map_sum id fst (object_call cv pe sigs H2 s args m2)
                 = map_sum id fst (object_call cv pe sigs H s args m2)"
      by (simp add: invoke_result [OF o2] invoke_result [OF o1])
  qed
  have frame: "\<forall>s args r m3. object_call cv pe sigs H2 s args m2 = Inr (r, m3) \<longrightarrow>
                   objects m3 p = Some (T, v) \<and> object_get_ptr H m3 = Inr (Some p)"
  proof (intro allI impI)
    fix s args r m3 assume c: "object_call cv pe sigs H2 s args m2 = Inr (r, m3)"
    then obtain f where f: "vtable_call sigs (obj_vt H) s = Inr f"
      by (auto simp: object_call_def H2_def split: sum.splits)
    obtain K s' U where fs: "f = Stub K s' U" by (cases f)
    from c have pe: "invoke cv pe (Stub K s' U) (Some p2) args m2 = Inr (r, m3)"
      by (simp add: object_call_def H2_def f fs g2 [unfolded H2_def])
    have n2: "next_addr m2 = Suc p2" by (simp add: m2_def)
    have "p < next_addr m2" "h < next_addr m2"
      using lt by (simp_all add: n2 p2_def h2_def)
    with invoke_frame [OF pe] ne
    have "objects m3 p = objects m2 p" "holders m3 h = holders m2 h"
      by auto
    moreover have "holders m2 h = Some p" using ne hp by (simp add: m2_def)
    ultimately show "objects m3 p = Some (T, v) \<and> object_get_ptr H m3 = Inr (Some p)"
      using o1 by (simp add: object_get_ptr_def t)
  qed
  show "\<exists>H2 m2 h2 p2. object_copy cv pe sigs H m = Inr (H2, m2) \<and>
               obj_vt H2 = obj_vt H \<and> obj_t H2 = Some h2 \<and> h2 \<noteq> h \<and>
               object_get_ptr H2 m2 = Inr (Some p2) \<and> object_get_ptr H m2 = Inr (Some p) \<and>
               p2 \<noteq> p \<and> objects m2 p2 = Some (T, v) \<and> objects m2 p = Some (T, v) \<and>
               (\<forall>s I args. get_index sigs s = Inr I \<longrightarrow>
                   map_sum id fst (object_call cv pe sigs H2 s args m2)
                 = map_sum id fst (object_call cv pe sigs H s args m2)) \<and>
               (\<forall>s args r m3. object_call cv pe sigs H2 s args m2 = Inr (r, m3) \<longrightarrow>
                   objects m3 p = Some (T, v) \<and> object_get_ptr H m3 = Inr (Some p))"
    using copy g2 g1 o2 o1 same frame ne by (intro exI [of _ H2] exI [of _ m2] exI [of _ h2] exI [of _ p2]) (simp add: H2_def)
qed



theorem object_copy_deep_witness:
  "(\<exists>H m. object_from_value [draw, copyable] ''Dummy'' (5 :: nat) empty_memory = Inr (H, m) \<and>
      memory_ok m \<and> vtable_over [draw, copyable] ''Dummy'' (obj_vt H) \<and>
      get_index [draw, copyable] copyable = Inr 1 \<and>
      obj_t H = Some 0 \<and> holders m 0 = Some 1 \<and> objects m 1 = Some (''Dummy'', 5) \<and>
      (\<exists>H2 m2 m3. object_copy exact_types example_extend [draw, copyable] H m = Inr (H2, m2) \<and>
         object_get_ptr H m2 = Inr (Some 1) \<and> object_get_ptr H2 m2 = Inr (Some 3) \<and>
         objects m2 3 = Some (''Dummy'', 5) \<and>
         object_call exact_types example_extend [draw, copyable] H2 draw [] m2 = Inr (Value 5, m3) \<and>
         objects m3 3 = Some (''Dummy'', 6) \<and> objects m3 1 = Some (''Dummy'', 5)) \<and>
      object_copy exact_types example_extend [draw, copyable] (snd (object_move H)) m
        = Inr (\<lparr>obj_vt = obj_vt H, obj_t = None\<rparr>, m))"
proof -
  let ?S = "[draw, copyable]"
  let ?V = "\<lparr>vptr = Static_vt ?S ''Dummy'', permutation = [0, 1]\<rparr>"
  let ?H = "\<lparr>obj_vt = ?V, obj_t = Some 0\<rparr>"
  let ?m = "(empty_memory :: nat memory)\<lparr>objects := [1 \<mapsto> (''Dummy'', 5)], holders := [0 \<mapsto> 1],
      next_addr := 2\<rparr>"
  let ?H2 = "\<lparr>obj_vt = ?V, obj_t = Some 2\<rparr>"
  let ?m2 = "?m\<lparr>objects := [1 \<mapsto> (''Dummy'', 5), 3 \<mapsto> (''Dummy'', 5)],
      holders := [0 \<mapsto> 1, 2 \<mapsto> 3], next_addr := 4\<rparr>"
  let ?m3 = "?m2\<lparr>objects := [1 \<mapsto> (''Dummy'', 5), 3 \<mapsto> (''Dummy'', 6)]\<rparr>"
  have h0: "object_from_value ?S ''Dummy'' 5 empty_memory = Inr (?H, ?m)"
    by (simp add: object_from_value_def vtable_from_type_example new_holder_imp_def Let_def
        empty_memory_def)
  have h1: "memory_ok ?m" by (auto simp: memory_ok_def empty_memory_def)
  have h2: "vtable_over ?S ''Dummy'' (obj_vt ?H)"
    using vtable_over_from_type [OF vtable_from_type_example(1)] by simp
  have h3: "get_index ?S copyable = Inr 1" by (rule get_index_example(2))
  have h4: "obj_t ?H = Some 0" "holders ?m 0 = Some 1" "objects ?m 1 = Some (''Dummy'', 5)"
    by simp_all
  note t = object_copy_deep [OF h1 h2 h3, where pe = example_extend and cv = exact_types]
  have c: "vtable_call ?S ?V copyable = Inr (Stub 1 copyable ''Dummy'')"
    "vtable_call ?S ?V draw = Inr (Stub 0 draw ''Dummy'')"
    using vtable_call_from_type [OF vtable_from_type_example(1)] get_index_example by auto
  have gp: "object_get_ptr ?H ?m = Inr (Some 1)" "object_get_ptr ?H2 ?m2 = Inr (Some 3)"
    by (simp_all add: object_get_ptr_def)
  have cl: "invoke exact_types example_extend (Stub 1 copyable ''Dummy'') (Some 1) [] ?m
      = Inr (Unique_ptr (Some 2), ?m2)"
    by (simp add: invoke_Stub pass_parameters_def poly_extend_at_def copyable_def
        new_holder_imp_def Let_def empty_memory_def fun_upd_twist)
  have dr: "invoke exact_types example_extend (Stub 0 draw ''Dummy'') (Some 3) [] ?m2
      = Inr (Value 5, ?m3)"
    by (simp add: invoke_Stub pass_parameters_def poly_extend_at_def draw_def example_extend_def
        exact_types_def empty_memory_def)
  have h5: "object_copy exact_types example_extend ?S ?H ?m = Inr (?H2, ?m2)"
    using c gp cl by (simp add: object_copy_def object_bool_def object_call_def)
  have h6: "object_call exact_types example_extend ?S ?H2 draw [] ?m2 = Inr (Value 5, ?m3)"
    using c gp dr by (simp add: object_call_def)
  from t have "\<exists>H2' m2' h2 p2. object_copy exact_types example_extend ?S ?H ?m = Inr (H2', m2') \<and>
      object_get_ptr H2' m2' = Inr (Some p2) \<and> object_get_ptr ?H m2' = Inr (Some 1) \<and>
      (\<forall>s args r m3. object_call exact_types example_extend ?S H2' s args m2' = Inr (r, m3) \<longrightarrow>
          objects m3 1 = Some (''Dummy'', 5) \<and> object_get_ptr ?H m3 = Inr (Some 1))"
    using h4 by blast
  then have f: "object_get_ptr ?H ?m2 = Inr (Some 1)" "objects ?m3 1 = Some (''Dummy'', 5)"
    using h5 h6 by auto
  have g: "object_get_ptr ?H2 ?m2 = Inr (Some 3)" "objects ?m2 3 = Some (''Dummy'', 5)"
    "objects ?m3 3 = Some (''Dummy'', 6)"
    by (simp_all add: object_get_ptr_def)
  from t have n: "object_copy exact_types example_extend ?S (snd (object_move ?H)) ?m
        = Inr (\<lparr>obj_vt = obj_vt ?H, obj_t = None\<rparr>, ?m)"
    by (simp add: object_copy_def object_move_def object_bool_def)
  show ?thesis
    using h0 h1 h2 h3 h4 h5 h6 f g n by blast
qed


text \<open>
  C3, on the code: a mutable owning handle is constructed from a value and destroyed.
  The holder is released once, and the destructor of the held object has not run: the
  \<^verbatim>\<open>std::unique_ptr<holder>\<close> deletes through \<^verbatim>\<open>holder *\<close>, and \<^verbatim>\<open>~holder()\<close> is not
  virtual.  No destruction of a mutable owning handle runs a destructor
  (\<open>object_destroy_runs_no_destructor\<close>); the shared shape, whose holder comes from
  \<^verbatim>\<open>std::make_shared\<close>, does run it once (\<open>shared_value_destroyed_once\<close>).
\<close>

theorem unique_holder_destructor_not_run:
  "\<exists>x m m'. object_from_value (object_signatures [draw]) ''Dummy'' (5 :: nat) empty_memory = Inr (x, m) \<and>
      object_get_ptr x m = Inr (Some 1) \<and> objects m 1 = Some (''Dummy'', 5) \<and>
      object_destroy x m = Inr m' \<and>
      released m' 0 = 1 \<and> destructor_runs m' 1 = 0"
  by (simp add: object_from_value_def vtable_from_type_object_example new_holder_imp_def Let_def
      empty_memory_def object_get_ptr_def object_destroy_def delete_holder_def)

text \<open>
  C4, on the code: a mutable owning handle is constructed from a value and assigned to
  itself.  The assignment yields no handle: the \<^verbatim>\<open>ref<>\<close> that \<^verbatim>\<open>ref(other)\<close> constructs
  declares no signature, so the conversion back to the handle's type finds none of the
  handle's signatures, whatever the fuel.  No path through the operator returns a handle
  (\<open>object_copy_assign_never_returns\<close>).
\<close>

theorem copy_assign_self_rejected:
  "\<exists>x m. object_from_value (object_signatures [draw]) ''Dummy'' (5 :: nat) empty_memory = Inr (x, m) \<and>
      object_bool x \<and>
      (\<forall>fuel. object_copy_assign (Suc fuel) exact_types example_extend (object_signatures [draw]) x x m
        = Some (Inl NoMatchingFunction))"
proof -
  let ?H = "\<lparr>obj_vt = \<lparr>vptr = Static_vt [draw, copyable] ''Dummy'', permutation = [0, 1]\<rparr>, obj_t = Some 0\<rparr>"
  let ?m = "(empty_memory :: nat memory)\<lparr>objects := [1 \<mapsto> (''Dummy'', 5)], holders := [0 \<mapsto> 1],
      next_addr := 2\<rparr>"
  have h0: "object_from_value (object_signatures [draw]) ''Dummy'' 5 empty_memory = Inr (?H, ?m)"
    by (simp add: object_from_value_def vtable_from_type_object_example new_holder_imp_def Let_def
        empty_memory_def)
  have h1: "object_signatures [draw] \<noteq> []" "static_assert (object_signatures [draw])"
    by (simp_all add: object_signatures_def static_assert_example)
  have h2: "object_get_ptr ?H ?m = Inr (Some 1)" by (simp add: object_get_ptr_def)
  have "\<forall>fuel. object_copy_assign (Suc fuel) exact_types example_extend (object_signatures [draw]) ?H ?H ?m
        = Some (Inl NoMatchingFunction)"
    using object_copy_assign_rejected [OF h1 h2] by blast
  then show ?thesis using h0 by (simp add: object_bool_def)
qed

end
